theory Spec2Isabelle
  imports Complex_Main "HOL-Library.Product_Lexorder" "HOL-Library.List_Lexorder"
begin

section \<open>JavaScript values the services handle\<close>

text \<open>
  Strings are byte strings: ASCII text is one \<^typ>\<open>char\<close> per character, and the few
  non-ASCII characters of the source's literals are carried as their UTF-8 bytes. Case
  mapping and trimming act on the ASCII range, where they agree with
  \<^verbatim>\<open>String.prototype.toLowerCase\<close>, \<^verbatim>\<open>toUpperCase\<close> and \<^verbatim>\<open>trim\<close>.
\<close>

definition lower_char :: "char \<Rightarrow> char" where
  "lower_char c =
     (if (65::nat) \<le> of_char c \<and> of_char c \<le> (90::nat) then char_of (of_char c + (32::nat)) else c)"


definition toLowerCase :: "string \<Rightarrow> string" where
  "toLowerCase s = map lower_char s"


definition is_space :: "char \<Rightarrow> bool" where
  "is_space c = (of_char c \<in> {9, 10, 11, 12, 13, 32 :: nat})"

definition trim :: "string \<Rightarrow> string" where
  "trim s = rev (dropWhile is_space (rev (dropWhile is_space s)))"

text \<open>\<^verbatim>\<open>Array.prototype.join\<close> on strings.\<close>

fun join :: "string \<Rightarrow> string list \<Rightarrow> string" where
  "join sep [] = []"
| "join sep [x] = x"
| "join sep (x # y # ys) = x @ sep @ join sep (y # ys)"

section \<open>License service: the store\<close>

text \<open>
  The service keeps no state of its own: every request reads and writes two tables of
  an external relational store through one call per statement. A table is the list of
  its rows in insertion order. Timestamps are the instants they denote, in
  milliseconds since the epoch (the ISO-8601 text the service writes is a rendering of
  that instant).
\<close>

record customer =
  cust_id :: nat
  email :: "string option"
  stripe_customer_id :: "string option"

record license =
  lic_id :: nat
  customer_id :: nat
  token :: string
  status :: string
  current_period_end :: int
  stripe_subscription_id :: string
  tier :: string
  session_id :: string

record mail =
  mail_to :: "string option"
  subject :: string
  html :: string

text \<open>
  The world a webhook request can change: both tables, and the mails the mail provider
  has accepted.
\<close>

record world =
  customers :: "customer list"
  licenses :: "license list"
  outbox :: "mail list"

text \<open>
  A store call either fails as a whole and leaves the table as it was, or takes
  effect atomically. The argument \<open>fault\<close> of each call is what the store does to this
  call: \<open>Some msg\<close> when it fails (network, constraint, outage) with that message.
\<close>

type_synonym fault = "string option"

definition multiple_rows :: string where
  "multiple_rows = ''JSON object requested, multiple (or no) rows returned''"

text \<open>\<^verbatim>\<open>.maybeSingle()\<close>: no row is \<open>null\<close>, one row is that row, more is an error.\<close>

definition maybeSingle :: "'a list \<Rightarrow> string + 'a option" where
  "maybeSingle rows =
     (case rows of [] \<Rightarrow> Inr None | [r] \<Rightarrow> Inr (Some r) | _ \<Rightarrow> Inl multiple_rows)"

text \<open>\<^verbatim>\<open>.single()\<close>: exactly one row, or an error.\<close>

definition single :: "'a list \<Rightarrow> string + 'a" where
  "single rows = (case rows of [r] \<Rightarrow> Inr r | _ \<Rightarrow> Inl multiple_rows)"

text \<open>\<^verbatim>\<open>from("licenses").select(..).eq(column, v).maybeSingle()\<close>\<close>

definition select_licenses_eq ::
  "fault \<Rightarrow> (license \<Rightarrow> 'v) \<Rightarrow> 'v \<Rightarrow> license list \<Rightarrow> string + license option" where
  "select_licenses_eq fault column v rows =
     (case fault of
        Some msg \<Rightarrow> Inl msg
      | None \<Rightarrow> maybeSingle (filter (\<lambda>r. column r = v) rows))"

section \<open>License service: the verify endpoint\<close>

text \<open>
  A query parameter as Express parses it: a string, or (for \<^verbatim>\<open>token[]=..\<close> and
  \<^verbatim>\<open>token[k]=..\<close>) an array or an object. \<open>None\<close> is the absent parameter.
\<close>

datatype query_value =
    Q_string string
  | Q_array "query_value list"
  | Q_object "(string \<times> query_value) list"

text \<open>JavaScript truthiness (\<^verbatim>\<open>!token\<close>) and \<^verbatim>\<open>String(token)\<close>.\<close>

fun truthy_query :: "query_value \<Rightarrow> bool" where
  "truthy_query (Q_string s) = (s \<noteq> [])"
| "truthy_query (Q_array _) = True"
| "truthy_query (Q_object _) = True"

text \<open>What \<^verbatim>\<open>if (!token) return ..\<close> lets through: the parameter, when present and truthy.\<close>

definition required :: "query_value option \<Rightarrow> query_value option" where
  "required q = (case q of None \<Rightarrow> None | Some v \<Rightarrow> if truthy_query v then Some v else None)"

fun String_query :: "query_value \<Rightarrow> string" where
  "String_query (Q_string s) = s"
| "String_query (Q_array xs) = join '','' (map String_query xs)"
| "String_query (Q_object _) = ''[object Object]''"

datatype body =
    Error_body string
  | Not_ok_body
  | Verify_body bool string int
  | Received_body
  | Text_body string

datatype response = Response nat body


fun body_of :: "response \<Rightarrow> body" where
  "body_of (Response _ b) = b"

text \<open>
  \<^verbatim>\<open>GET /api/license/verify\<close> of \<^verbatim>\<open>promptfoundry-api/server.js\<close>. \<open>Error_body msg\<close> is
  \<^verbatim>\<open>{ok:false, error:msg}\<close>, \<open>Not_ok_body\<close> is \<^verbatim>\<open>{ok:false}\<close>, and \<open>Verify_body\<close> is
  \<^verbatim>\<open>{ok, tier, current_period_end}\<close>.
\<close>

definition verify :: "fault \<Rightarrow> world \<Rightarrow> query_value option \<Rightarrow> response" where
  "verify fault w tok =
     (case required tok of
        None \<Rightarrow> Response 400 (Error_body ''token required'')
      | Some t \<Rightarrow>
         (case select_licenses_eq fault token (String_query t) (licenses w) of
            Inl msg \<Rightarrow> Response 500 (Error_body msg)
          | Inr None \<Rightarrow> Response 200 Not_ok_body
          | Inr (Some data) \<Rightarrow>
            (let active = (status data \<in> set [''active'', ''trialing'', ''past_due''])
             in Response 200 (Verify_body active (tier data) (current_period_end data)))))"

text \<open>The same endpoint of the sidecar \<^verbatim>\<open>server.js\<close>: a chain of \<^verbatim>\<open>===\<close>.\<close>

definition verify_sidecar :: "fault \<Rightarrow> world \<Rightarrow> query_value option \<Rightarrow> response" where
  "verify_sidecar fault w tok =
     (case required tok of
        None \<Rightarrow> Response 400 (Error_body ''token required'')
      | Some t \<Rightarrow>
         (case select_licenses_eq fault token (String_query t) (licenses w) of
            Inl msg \<Rightarrow> Response 500 (Error_body msg)
          | Inr None \<Rightarrow> Response 200 Not_ok_body
          | Inr (Some data) \<Rightarrow>
            (let active = (status data = ''active'' \<or> status data = ''trialing''
                           \<or> status data = ''past_due'')
             in Response 200 (Verify_body active (tier data) (current_period_end data)))))"

section \<open>License service: the webhook\<close>

text \<open>What Stripe sends and answers, as far as the handler reads it.\<close>

datatype customer_ref = Customer_id string | Customer_object string

record session =
  sess_id :: string
  sess_mode :: string
  sess_subscription :: string
  sess_customer :: "customer_ref option"
  sess_customer_details_email :: "string option"

record subscription =
  sub_id :: string
  sub_status :: string
  sub_current_period_end :: int
  sub_customer_email :: "string option"

record invoice =
  inv_subscription :: "string option"

text \<open>
  An event, by the \<^verbatim>\<open>event.type\<close> the handler switches on, with its
  \<^verbatim>\<open>event.data.object\<close>. \<open>Other_event\<close> is every type the switch leaves to \<^verbatim>\<open>default\<close>.
\<close>

datatype event =
    Checkout_session_completed session
  | Customer_subscription_updated subscription
  | Customer_subscription_deleted subscription
  | Customer_subscription_paused subscription
  | Customer_subscription_resumed subscription
  | Invoice_payment_failed invoice
  | Other_event string

record request =
  req_body :: string
  stripe_signature :: "string option"

record config =
  APP_URL :: string
  STRIPE_WEBHOOK_SECRET :: "string option"
  RESEND_API_KEY :: "string option"
  SUPPORT_EMAIL :: string
  BRAND_NAME :: string

text \<open>
  What the outside answers while one request is handled: Stripe's signature check
  (\<^verbatim>\<open>stripe.webhooks.constructEvent\<close>; \<open>Inl msg\<close> is the error it throws), Stripe's
  \<^verbatim>\<open>subscriptions.retrieve\<close>, the fault of each store call in the order the calls are
  made, the random token \<^verbatim>\<open>licenseToken()\<close> draws, and whether the mail provider
  accepts a mail.
\<close>

record env =
  constructEvent :: "string \<Rightarrow> string option \<Rightarrow> string option \<Rightarrow> string + event"
  subscriptions_retrieve :: "string \<Rightarrow> string + subscription"
  faults :: "fault list"
  licenseToken :: string
  mail_accepted :: bool

datatype error =
    Store_error string
  | Stripe_error string
  | Range_error
  | Email_failed

definition fault_at :: "env \<Rightarrow> nat \<Rightarrow> fault" where
  "fault_at e n = (if n < length (faults e) then faults e ! n else None)"

text \<open>
  \<^verbatim>\<open>new Date(ms).toISOString()\<close> throws a RangeError outside the range of a Date.
\<close>

definition toISOString :: "int \<Rightarrow> error + int" where
  "toISOString ms = (if \<bar>ms\<bar> \<le> 8640000000000000 then Inr ms else Inl Range_error)"

text \<open>The key the store gives a new row.\<close>

definition fresh_id :: "nat list \<Rightarrow> nat" where
  "fresh_id ids = Suc (fold max ids 0)"

text \<open>\<^verbatim>\<open>a || b\<close> on optional strings: \<open>a\<close> when it is there and not empty.\<close>

definition or_else :: "string option \<Rightarrow> string option \<Rightarrow> string option" where
  "or_else a b = (case a of Some s \<Rightarrow> if s \<noteq> [] then Some s else b | None \<Rightarrow> b)"

text \<open>
  \<^verbatim>\<open>upsertCustomer\<close>: insert, or on a conflict on \<open>email\<close> update, then \<^verbatim>\<open>.single()\<close>.
  A key the payload leaves out (\<open>undefined\<close>) is not written; a row without email
  conflicts with nothing.
\<close>

definition upsertCustomer ::
  "fault \<Rightarrow> string option \<Rightarrow> string option \<Rightarrow> customer list \<Rightarrow> (error + customer) \<times> customer list" where
  "upsertCustomer fault em scid rows =
     (case fault of
        Some msg \<Rightarrow> (Inl (Store_error msg), rows)
      | None \<Rightarrow>
         (if em \<noteq> None \<and> (\<exists>r \<in> set rows. email r = em) then
            (let rows' = map (\<lambda>r. if email r = em
                                   then (case scid of None \<Rightarrow> r | Some c \<Rightarrow> r\<lparr>stripe_customer_id := Some c\<rparr>)
                                   else r) rows
             in case single (filter (\<lambda>r. email r = em) rows') of
                  Inl msg \<Rightarrow> (Inl (Store_error msg), rows)
                | Inr data \<Rightarrow> (Inr data, rows'))
          else
            (let data = \<lparr>cust_id = fresh_id (map cust_id rows), email = em, stripe_customer_id = scid\<rparr>
             in (Inr data, rows @ [data]))))"

text \<open>\<^verbatim>\<open>from("licenses").update(values).eq(column, v)\<close>\<close>

definition update_licenses_eq ::
  "fault \<Rightarrow> (license \<Rightarrow> 'v) \<Rightarrow> 'v \<Rightarrow> (license \<Rightarrow> license) \<Rightarrow> license list \<Rightarrow> (error + unit) \<times> license list" where
  "update_licenses_eq fault column v values rows =
     (case fault of
        Some msg \<Rightarrow> (Inl (Store_error msg), rows)
      | None \<Rightarrow> (Inr (), map (\<lambda>r. if column r = v then values r else r) rows))"

text \<open>
  \<^verbatim>\<open>createOrUpdateLicense\<close>: look the subscription's license up; update it by its id when
  there is one, insert one with a new token otherwise. \<open>find_fault\<close> and \<open>write_fault\<close>
  are the faults of its two store calls, \<open>new_token\<close> is the token \<^verbatim>\<open>licenseToken()\<close>
  would draw.
\<close>

definition createOrUpdateLicense ::
  "fault \<Rightarrow> fault \<Rightarrow> string \<Rightarrow> nat \<Rightarrow> string \<Rightarrow> string \<Rightarrow> int \<Rightarrow> string \<Rightarrow> license list
     \<Rightarrow> (error + license) \<times> license list" where
  "createOrUpdateLicense find_fault write_fault new_token cid subscription_id st period_end sid rows =
     (case select_licenses_eq find_fault stripe_subscription_id subscription_id rows of
        Inl findErr \<Rightarrow> (Inl (Store_error findErr), rows)
      | Inr (Some existing) \<Rightarrow>
         (case update_licenses_eq write_fault lic_id (lic_id existing)
                 (\<lambda>r. r\<lparr>status := st, current_period_end := period_end, session_id := sid\<rparr>) rows of
            (Inl e, _) \<Rightarrow> (Inl e, rows)
          | (Inr _, rows') \<Rightarrow>
             (case single (filter (\<lambda>r. lic_id r = lic_id existing) rows') of
                Inl msg \<Rightarrow> (Inl (Store_error msg), rows)
              | Inr data \<Rightarrow> (Inr data, rows')))
      | Inr None \<Rightarrow>
         (case write_fault of
            Some msg \<Rightarrow> (Inl (Store_error msg), rows)
          | None \<Rightarrow>
             (let data = \<lparr>lic_id = fresh_id (map lic_id rows), customer_id = cid, token = new_token,
                          status = st, current_period_end = period_end,
                          stripe_subscription_id = subscription_id, tier = ''all-access'',
                          session_id = sid\<rparr>
              in (Inr data, rows @ [data]))))"

text \<open>
  \<^verbatim>\<open>emailSend\<close>: without a provider key the mail is only logged; with one, the provider
  accepts it or the call throws.
\<close>

definition emailSend :: "config \<Rightarrow> env \<Rightarrow> mail \<Rightarrow> mail list \<Rightarrow> (error + unit) \<times> mail list" where
  "emailSend cfg e m sent =
     (if or_else (RESEND_API_KEY cfg) None = None then (Inr (), sent)
      else if mail_accepted e then (Inr (), sent @ [m])
      else (Inl Email_failed, sent))"

definition em_dash :: string where
  "em_dash = [CHR 0xE2, CHR 0x80, CHR 0x94]"

definition successEmailHtml :: "config \<Rightarrow> string \<Rightarrow> string" where
  "successEmailHtml cfg key =
     [CHR 0x0A] @
     ''<div style=\"font-family:Inter,system-ui,-apple-system,Segoe UI,Roboto,Arial,sans-serif;line-height:1.6\">'' @ [CHR 0x0A] @
     ''  <h2>'' @ BRAND_NAME cfg @ '': You'' @ [CHR 0x27] @ ''re In '' @ [CHR 0xF0, CHR 0x9F, CHR 0x8E, CHR 0x89] @ ''</h2>'' @ [CHR 0x0A] @
     ''  <p>Thanks for subscribing to <strong>All-Access ($99/month)</strong>.</p>'' @ [CHR 0x0A] @
     ''  <p><strong>Your license key:</strong></p>'' @ [CHR 0x0A] @
     ''  <pre style=\"padding:12px;background:#f6f7f9;border-radius:8px;font-size:16px\">'' @ key @ ''</pre>'' @ [CHR 0x0A] @
     ''  <ol>'' @ [CHR 0x0A] @
     ''    <li>Open the site: <a href=\"'' @ APP_URL cfg @ ''\">'' @ APP_URL cfg @ ''</a></li>'' @ [CHR 0x0A] @
     ''    <li>Click <b>Unlock Pro</b> '' @ [CHR 0xE2, CHR 0x86, CHR 0x92] @ '' paste your key ''
         @ [CHR 0xE2, CHR 0x86, CHR 0x92] @ '' full access.</li>'' @ [CHR 0x0A] @
     ''  </ol>'' @ [CHR 0x0A] @
     ''  <p>Need help? Reply here or email <a href=\"mailto:'' @ SUPPORT_EMAIL cfg @ ''\">'' @ SUPPORT_EMAIL cfg
         @ ''</a>.</p>'' @ [CHR 0x0A] @
     ''  <hr/>'' @ [CHR 0x0A] @
     ''  <p style=\"font-size:12px;color:#666\">Manage billing via your Stripe receipt.</p>'' @ [CHR 0x0A] @
     ''</div>''"

text \<open>The case \<^verbatim>\<open>checkout.session.completed\<close>.\<close>

definition on_checkout_completed :: "config \<Rightarrow> env \<Rightarrow> session \<Rightarrow> world \<Rightarrow> (error + unit) \<times> world" where
  "on_checkout_completed cfg e s w =
     (if sess_mode s \<noteq> ''subscription'' then (Inr (), w)
      else
        case subscriptions_retrieve e (sess_subscription s) of
          Inl msg \<Rightarrow> (Inl (Stripe_error msg), w)
        | Inr sub \<Rightarrow>
           (let customerId = (case sess_customer s of
                                Some (Customer_id c) \<Rightarrow> Some c
                              | Some (Customer_object c) \<Rightarrow> Some c
                              | None \<Rightarrow> None);
                em = or_else (sess_customer_details_email s) (sub_customer_email sub)
            in case upsertCustomer (fault_at e 0) em customerId (customers w) of
                 (Inl err, _) \<Rightarrow> (Inl err, w)
               | (Inr cust, cs) \<Rightarrow>
                  (let w1 = w\<lparr>customers := cs\<rparr>
                   in case toISOString (sub_current_period_end sub * 1000) of
                        Inl err \<Rightarrow> (Inl err, w1)
                      | Inr period_end \<Rightarrow>
                         (case createOrUpdateLicense (fault_at e 1) (fault_at e 2) (licenseToken e)
                                 (cust_id cust) (sub_id sub) (sub_status sub) period_end (sess_id s)
                                 (licenses w1) of
                            (Inl err, _) \<Rightarrow> (Inl err, w1)
                          | (Inr lic, ls) \<Rightarrow>
                             (let w2 = w1\<lparr>licenses := ls\<rparr>
                              in case emailSend cfg e
                                        \<lparr>mail_to = em,
                                         subject = BRAND_NAME cfg @ '' '' @ em_dash @ '' Your All-Access license key'',
                                         html = successEmailHtml cfg (token lic)\<rparr>
                                        (outbox w2) of
                                   (Inl err, _) \<Rightarrow> (Inl err, w2)
                                 | (Inr _, sent) \<Rightarrow> (Inr (), w2\<lparr>outbox := sent\<rparr>))))))"

text \<open>
  The cases \<^verbatim>\<open>customer.subscription.updated\<close>, \<^verbatim>\<open>deleted\<close>, \<^verbatim>\<open>paused\<close> and \<^verbatim>\<open>resumed\<close>,
  which share one body.
\<close>

definition on_subscription_change :: "env \<Rightarrow> subscription \<Rightarrow> world \<Rightarrow> (error + unit) \<times> world" where
  "on_subscription_change e sub w =
     (case toISOString (sub_current_period_end sub * 1000) of
        Inl err \<Rightarrow> (Inl err, w)
      | Inr period_end \<Rightarrow>
         (case update_licenses_eq (fault_at e 0) stripe_subscription_id (sub_id sub)
                 (\<lambda>r. r\<lparr>status := sub_status sub, current_period_end := period_end\<rparr>) (licenses w) of
            (Inl err, _) \<Rightarrow> (Inl err, w)
          | (Inr _, ls) \<Rightarrow> (Inr (), w\<lparr>licenses := ls\<rparr>)))"

text \<open>The case \<^verbatim>\<open>invoice.payment_failed\<close>: the store's answer is not looked at.\<close>

definition on_payment_failed :: "env \<Rightarrow> invoice \<Rightarrow> world \<Rightarrow> (error + unit) \<times> world" where
  "on_payment_failed e failed w =
     (case or_else (inv_subscription failed) None of
        None \<Rightarrow> (Inr (), w)
      | Some subscription_id \<Rightarrow>
         (Inr (), w\<lparr>licenses := snd (update_licenses_eq (fault_at e 0) stripe_subscription_id subscription_id
                                        (\<lambda>r. r\<lparr>status := ''past_due''\<rparr>) (licenses w))\<rparr>))"

fun handle_event :: "config \<Rightarrow> env \<Rightarrow> event \<Rightarrow> world \<Rightarrow> (error + unit) \<times> world" where
  "handle_event cfg e (Checkout_session_completed s) w = on_checkout_completed cfg e s w"
| "handle_event cfg e (Customer_subscription_updated sub) w = on_subscription_change e sub w"
| "handle_event cfg e (Customer_subscription_deleted sub) w = on_subscription_change e sub w"
| "handle_event cfg e (Customer_subscription_paused sub) w = on_subscription_change e sub w"
| "handle_event cfg e (Customer_subscription_resumed sub) w = on_subscription_change e sub w"
| "handle_event cfg e (Invoice_payment_failed failed) w = on_payment_failed e failed w"
| "handle_event cfg e (Other_event _) w = (Inr (), w)"

text \<open>
  \<^verbatim>\<open>POST /api/stripe/webhook\<close>: the signature check first; an error thrown while the
  event is handled is answered with 500, and what was written before it stays written.
\<close>

definition webhook :: "config \<Rightarrow> env \<Rightarrow> request \<Rightarrow> world \<Rightarrow> response \<times> world" where
  "webhook cfg e req w =
     (case constructEvent e (req_body req) (stripe_signature req) (STRIPE_WEBHOOK_SECRET cfg) of
        Inl msg \<Rightarrow> (Response 400 (Text_body (''Webhook Error: '' @ msg)), w)
      | Inr ev \<Rightarrow>
         (case handle_event cfg e ev w of
            (Inl _, w') \<Rightarrow> (Response 500 (Text_body ''Webhook failed''), w')
          | (Inr _, w') \<Rightarrow> (Response 200 Received_body, w')))"

section \<open>Catalog: snapshot records and the runtime's functions\<close>

text \<open>
  A content item as both scripts write it to \<^verbatim>\<open>library.json\<close>. What a script writes is
  \<^verbatim>\<open>JSON.stringify\<close> of a list of these, a function of the list: two runs that end with
  the same list write the same bytes.
\<close>

record item =
  item_id :: string
  category :: string
  title :: string
  tags :: "string list"
  rating :: rat
  price :: rat
  buyUrl :: string
  prompt :: string

text \<open>
  \<^verbatim>\<open>a.localeCompare(b)\<close> orders strings by the collation of the runtime's locale. The
  collation is a parameter \<open>ck\<close>, the sort key it gives a string: two strings compare as
  their keys do.
\<close>

definition localeCompare :: "(string \<Rightarrow> 'k::linorder) \<Rightarrow> string \<Rightarrow> string \<Rightarrow> rat" where
  "localeCompare ck a b = (if ck a < ck b then - 1 else if ck a = ck b then 0 else 1)"

text \<open>\<^verbatim>\<open>x || y\<close> on numbers.\<close>

definition or_number :: "rat \<Rightarrow> rat \<Rightarrow> rat" where
  "or_number x y = (if x \<noteq> 0 then x else y)"

text \<open>
  \<^verbatim>\<open>Array.prototype.sort(cmp)\<close> is stable; for a comparator that is a total preorder
  its result is the one stable ordering of the array, which inserting the elements from
  the right, each before the first element it does not come after, computes.
\<close>

fun insert_sorted :: "('a \<Rightarrow> 'a \<Rightarrow> rat) \<Rightarrow> 'a \<Rightarrow> 'a list \<Rightarrow> 'a list" where
  "insert_sorted cmp x [] = [x]"
| "insert_sorted cmp x (y # ys) = (if cmp x y \<le> 0 then x # y # ys else y # insert_sorted cmp x ys)"

definition Array_sort :: "('a \<Rightarrow> 'a \<Rightarrow> rat) \<Rightarrow> 'a list \<Rightarrow> 'a list" where
  "Array_sort cmp xs = foldr (insert_sorted cmp) xs []"

section \<open>Catalog validator\<close>

text \<open>The loop of \<^verbatim>\<open>uniqBy\<close>, with the set \<open>seen\<close> it carries, and \<^verbatim>\<open>uniqBy\<close> itself.\<close>

fun uniq_loop :: "('a \<Rightarrow> 'k) \<Rightarrow> 'k set \<Rightarrow> 'a list \<Rightarrow> 'a list" where
  "uniq_loop keyFn seen [] = []"
| "uniq_loop keyFn seen (x # xs) =
     (let k = keyFn x
      in if k \<notin> seen then x # uniq_loop keyFn (insert k seen) xs else uniq_loop keyFn seen xs)"

definition uniqBy :: "'a list \<Rightarrow> ('a \<Rightarrow> 'k) \<Rightarrow> 'a list" where
  "uniqBy arr keyFn = uniq_loop keyFn {} arr"

text \<open>
  What \<^verbatim>\<open>JSON.parse\<close> returns. Numbers are the finite ones; an object is the list of
  its keys with their values.
\<close>

datatype json =
    JNull
  | JBool bool
  | JNumber rat
  | JString string
  | JArray "json list"
  | JObject "(string \<times> json) list"

datatype js_error = Invalid_JSON | TypeError

text \<open>
  Reading one of the properties the validator reads (\<open>id\<close>, \<open>category\<close>, \<open>title\<close>, \<open>tags\<close>,
  \<open>rating\<close>, \<open>price\<close>, \<open>buyUrl\<close>, \<open>prompt\<close>, \<open>items\<close>) of a value that is not \<open>null\<close>: of
  an object it is the key's value, of anything else it is \<open>undefined\<close> (\<open>None\<close>). Reading
  a property of \<open>null\<close> throws a TypeError, which \<open>clean\<close> and \<open>data_array\<close> write out.
\<close>

fun property :: "json \<Rightarrow> string \<Rightarrow> json option" where
  "property (JObject kvs) k = map_of kvs k"
| "property _ k = None"

fun truthy :: "json \<Rightarrow> bool" where
  "truthy JNull = False"
| "truthy (JBool b) = b"
| "truthy (JNumber n) = (n \<noteq> 0)"
| "truthy (JString s) = (s \<noteq> [])"
| "truthy (JArray _) = True"
| "truthy (JObject _) = True"

text \<open>\<^verbatim>\<open>v || d\<close>, where \<open>v\<close> may be \<open>undefined\<close>.\<close>

definition or_json :: "json option \<Rightarrow> json \<Rightarrow> json" where
  "or_json v d = (case v of Some x \<Rightarrow> if truthy x then x else d | None \<Rightarrow> d)"

text \<open>
  \<^verbatim>\<open>String(v)\<close>. \<open>ns\<close> is the runtime's rendering of a number. An array is its
  elements joined by commas, \<open>null\<close> elements as the empty string.
\<close>

fun String_json :: "(rat \<Rightarrow> string) \<Rightarrow> json \<Rightarrow> string" where
  "String_json ns JNull = ''null''"
| "String_json ns (JBool b) = (if b then ''true'' else ''false'')"
| "String_json ns (JNumber n) = ns n"
| "String_json ns (JString s) = s"
| "String_json ns (JArray xs) = join '','' (map (\<lambda>x. if x = JNull then [] else String_json ns x) xs)"
| "String_json ns (JObject _) = ''[object Object]''"

text \<open>The decimal digits of an array index, for \<^verbatim>\<open>`id-${i}`\<close>.\<close>

fun decimal :: "nat \<Rightarrow> string" where
  "decimal n = (if n < 10 then [char_of (48 + n)] else decimal (n div 10) @ [char_of (48 + n mod 10)])"

declare decimal.simps [simp del]

text \<open>The callback of \<^verbatim>\<open>data.map((it, i) => ..)\<close>: one record coerced to the field set.\<close>

definition clean :: "(rat \<Rightarrow> string) \<Rightarrow> json \<Rightarrow> nat \<Rightarrow> js_error + item" where
  "clean ns it i =
     (if it = JNull then Inl TypeError
      else
        Inr \<lparr>item_id = String_json ns (or_json (property it ''id'') (JString (''id-'' @ decimal i))),
             category = String_json ns (or_json (property it ''category'') (JString ''General'')),
             title = String_json ns (or_json (property it ''title'') (JString ''Untitled'')),
             tags = (case property it ''tags'' of Some (JArray ts) \<Rightarrow> map (String_json ns) ts | _ \<Rightarrow> []),
             rating = (case property it ''rating'' of Some (JNumber n) \<Rightarrow> n | _ \<Rightarrow> 5),
             price = (case property it ''price'' of Some (JNumber n) \<Rightarrow> n | _ \<Rightarrow> 99),
             buyUrl = trim (String_json ns (or_json (property it ''buyUrl'') (JString []))),
             prompt = trim (String_json ns (or_json (property it ''prompt'') (JString [])))\<rparr>)"

text \<open>\<^verbatim>\<open>data.map\<close> over the array, from index \<open>i\<close> on; the first throw ends it.\<close>

fun clean_from :: "(rat \<Rightarrow> string) \<Rightarrow> nat \<Rightarrow> json list \<Rightarrow> js_error + item list" where
  "clean_from ns i [] = Inr []"
| "clean_from ns i (it # its) =
     (case clean ns it i of
        Inl e \<Rightarrow> Inl e
      | Inr x \<Rightarrow> (case clean_from ns (Suc i) its of Inl e \<Rightarrow> Inl e | Inr xs \<Rightarrow> Inr (x # xs)))"

text \<open>The array the validator works on: the parsed value, or its \<open>items\<close>, or nothing.\<close>

definition data_array :: "json \<Rightarrow> js_error + json list" where
  "data_array parsed =
     (case parsed of
        JArray its \<Rightarrow> Inr its
      | JNull \<Rightarrow> Inl TypeError
      | _ \<Rightarrow> (case property parsed ''items'' of Some (JArray its) \<Rightarrow> Inr its | _ \<Rightarrow> Inr []))"

definition validator_key :: "item \<Rightarrow> string" where
  "validator_key x = toLowerCase (title x @ ''::'' @ prompt x)"

definition validator_compare :: "(string \<Rightarrow> 'k::linorder) \<Rightarrow> item \<Rightarrow> item \<Rightarrow> rat" where
  "validator_compare ck a b =
     or_number (localeCompare ck (category a) (category b)) (localeCompare ck (title a) (title b))"

text \<open>
  \<^verbatim>\<open>main\<close> of the validator, from what \<^verbatim>\<open>JSON.parse\<close> made of the file (\<open>None\<close> when
  it threw; a file that cannot be read counts as \<^verbatim>\<open>[]\<close>) to the list it writes back.
\<close>

definition validator_main ::
  "(rat \<Rightarrow> string) \<Rightarrow> (string \<Rightarrow> 'k::linorder) \<Rightarrow> json option \<Rightarrow> js_error + item list" where
  "validator_main ns ck parsed =
     (case parsed of
        None \<Rightarrow> Inl Invalid_JSON
      | Some p \<Rightarrow>
         (case data_array p of
            Inl e \<Rightarrow> Inl e
          | Inr data \<Rightarrow>
             (case clean_from ns 0 data of
                Inl e \<Rightarrow> Inl e
              | Inr cleaned \<Rightarrow>
                 (let nonEmpty = filter (\<lambda>x. title x \<noteq> [] \<and> prompt x \<noteq> []) cleaned;
                      deduped = uniqBy nonEmpty validator_key
                  in Inr (Array_sort (validator_compare ck) deduped)))))"

text \<open>What reading back a written list gives: \<^verbatim>\<open>JSON.parse(JSON.stringify(items))\<close>.\<close>

definition to_json :: "item \<Rightarrow> json" where
  "to_json x =
     JObject [(''id'', JString (item_id x)), (''category'', JString (category x)),
              (''title'', JString (title x)), (''tags'', JArray (map JString (tags x))),
              (''rating'', JNumber (rating x)), (''price'', JNumber (price x)),
              (''buyUrl'', JString (buyUrl x)), (''prompt'', JString (prompt x))]"

section \<open>Catalog builder\<close>





















section \<open>License service: what the properties speak of\<close>

text \<open>At most one license row per external subscription reference.\<close>

definition sub_unique :: "world \<Rightarrow> bool" where
  "sub_unique w = distinct (map stripe_subscription_id (licenses w))"

text \<open>The license rows of one subscription reference.\<close>

definition licenses_for :: "string \<Rightarrow> world \<Rightarrow> license list" where
  "licenses_for subscription_id w = filter (\<lambda>r. stripe_subscription_id r = subscription_id) (licenses w)"

text \<open>
  Row \<open>b\<close> is row \<open>a\<close> but for its \<open>status\<close>, \<open>current_period_end\<close> and \<open>session_id\<close>.
\<close>

definition same_but_billing :: "license \<Rightarrow> license \<Rightarrow> bool" where
  "same_but_billing a b =
     (lic_id b = lic_id a \<and> customer_id b = customer_id a \<and> token b = token a \<and>
      stripe_subscription_id b = stripe_subscription_id a \<and> tier b = tier a)"

text \<open>
  One step of the licenses table: every row rewritten in its billing fields only, or
  one row appended for a subscription that had none, carrying the token \<open>tok\<close>.
\<close>

definition lic_step :: "string \<Rightarrow> license list \<Rightarrow> license list \<Rightarrow> bool" where
  "lic_step tok rows rows' =
     ((\<exists>g. (\<forall>r. same_but_billing r (g r)) \<and> rows' = map g rows) \<or>
      (\<exists>d. rows' = rows @ [d] \<and> stripe_subscription_id d \<notin> stripe_subscription_id ` set rows \<and> token d = tok))"

subsection \<open>A deployment, a checkout and its replay\<close>

text \<open>
  A deployment, a signature check that accepts one signature, a first delivery of a
  completed checkout (\<open>env0\<close>) and its redelivery after the subscription has gone
  past due (\<open>env1\<close>), with the worlds before, between and after.
\<close>

definition cfg0 :: config where
  "cfg0 = \<lparr>APP_URL = ''https://promptfoundry.example'', STRIPE_WEBHOOK_SECRET = Some ''whsec_1'',
           RESEND_API_KEY = Some ''re_1'', SUPPORT_EMAIL = ''support@yourdomain.com'',
           BRAND_NAME = ''PromptFoundry''\<rparr>"

definition session0 :: session where
  "session0 = \<lparr>sess_id = ''cs_1'', sess_mode = ''subscription'', sess_subscription = ''sub_1'',
               sess_customer = Some (Customer_id ''cus_1''),
               sess_customer_details_email = Some ''a@b.c''\<rparr>"

definition subscription0 :: "string \<Rightarrow> subscription" where
  "subscription0 i = \<lparr>sub_id = i, sub_status = ''active'', sub_current_period_end = 1700000000,
                      sub_customer_email = None\<rparr>"

definition env0 :: env where
  "env0 = \<lparr>constructEvent = (\<lambda>payload sg secret.
                if sg = Some ''t=1,v1=good'' then Inr (Checkout_session_completed session0)
                else Inl ''No signatures found matching the expected signature for payload''),
            subscriptions_retrieve = (\<lambda>i. Inr (subscription0 i)),
            faults = [],
            licenseToken = ''0123456789AB-DEADBEEF'',
            mail_accepted = True\<rparr>"

definition request0 :: request where
  "request0 = \<lparr>req_body = ''{}'', stripe_signature = Some ''t=1,v1=good''\<rparr>"

definition world0 :: world where
  "world0 = \<lparr>customers = [], licenses = [], outbox = []\<rparr>"

definition license0 :: license where
  "license0 = \<lparr>lic_id = 1, customer_id = 1, token = ''0123456789AB-DEADBEEF'', status = ''active'',
               current_period_end = 1700000000000, stripe_subscription_id = ''sub_1'',
               tier = ''all-access'', session_id = ''cs_1''\<rparr>"

definition env1 :: env where
  "env1 = \<lparr>constructEvent = (\<lambda>payload sg secret.
                if sg = Some ''t=1,v1=good'' then Inr (Checkout_session_completed session0)
                else Inl ''No signatures found matching the expected signature for payload''),
            subscriptions_retrieve = (\<lambda>i. Inr ((subscription0 i)\<lparr>sub_status := ''past_due''\<rparr>)),
            faults = [],
            licenseToken = ''BA9876543210-FEEDFACE'',
            mail_accepted = True\<rparr>"

definition mail0 :: mail where
  "mail0 = \<lparr>mail_to = Some ''a@b.c'',
            subject = ''PromptFoundry '' @ em_dash @ '' Your All-Access license key'',
            html = successEmailHtml cfg0 ''0123456789AB-DEADBEEF''\<rparr>"

definition world1 :: world where
  "world1 = \<lparr>customers = [\<lparr>cust_id = 1, email = Some ''a@b.c'', stripe_customer_id = Some ''cus_1''\<rparr>],
     licenses = [license0], outbox = [mail0]\<rparr>"

definition world1' :: world where
  "world1' = \<lparr>customers = [\<lparr>cust_id = 1, email = Some ''a@b.c'', stripe_customer_id = Some ''cus_1''\<rparr>],
     licenses = [license0\<lparr>status := ''past_due''\<rparr>], outbox = [mail0, mail0]\<rparr>"

definition request_forged :: request where
  "request_forged = \<lparr>req_body = ''{}'', stripe_signature = Some ''t=1,v1=forged''\<rparr>"

definition license_canceled :: license where
  "license_canceled = \<lparr>lic_id = 2, customer_id = 1, token = ''AAAAAAAAAAAA-BBBBBBBB'', status = ''canceled'',
               current_period_end = 1700000000000, stripe_subscription_id = ''sub_2'',
               tier = ''all-access'', session_id = ''cs_2''\<rparr>"

definition world2 :: world where
  "world2 = \<lparr>customers = [], licenses = [license0\<lparr>status := ''past_due''\<rparr>, license_canceled], outbox = []\<rparr>"

section \<open>Catalog: what the properties speak of\<close>


text \<open>
  The orders the two comparators sort by, as keys compared lexicographically: the
  validator's (category, title), and the builder's rating from high to low, then title.
\<close>

definition validator_order :: "(string \<Rightarrow> 'k::linorder) \<Rightarrow> item \<Rightarrow> 'k \<times> 'k" where
  "validator_order ck x = (ck (category x), ck (title x))"


text \<open>
  The coerced records the validator does not drop as empty.
\<close>

definition kept :: "item list \<Rightarrow> item list" where
  "kept cleaned = filter (\<lambda>x. title x \<noteq> [] \<and> prompt x \<noteq> []) cleaned"


text \<open>
  A record that coercing leaves as it is.
\<close>

definition settled :: "item \<Rightarrow> bool" where
  "settled x = (item_id x \<noteq> [] \<and> category x \<noteq> [] \<and> title x \<noteq> [] \<and>
                trim (buyUrl x) = buyUrl x \<and> trim (prompt x) = prompt x)"

subsection \<open>A runtime and some snapshots\<close>

text \<open>
  For the examples: numbers that are integers printed in decimal, as JavaScript
  prints them, and the collation that compares strings by their code points.
\<close>

definition integer_string :: "rat \<Rightarrow> string" where
  "integer_string r = (if r < 0 then ''-'' else []) @ decimal (nat \<lfloor>\<bar>r\<bar>\<rfloor>)"

definition code_points :: "string \<Rightarrow> nat list" where
  "code_points s = map of_char s"

text \<open>
  \<^verbatim>\<open>[{"id": [], "title": "Cold email", "prompt": "Write a cold email."}]\<close>, and what
  the validator writes for it.
\<close>

definition input_array_id :: json where
  "input_array_id =
     JArray [JObject [(''id'', JArray []), (''title'', JString ''Cold email''), (''prompt'', JString ''Write a cold email.'')]]"

definition output_empty_id :: "item list" where
  "output_empty_id =
     [\<lparr>item_id = [], category = ''General'', title = ''Cold email'', tags = [], rating = 5, price = 99,
       buyUrl = [], prompt = ''Write a cold email.''\<rparr>]"

text \<open>
  A snapshot in the \<^verbatim>\<open>{items: [..]}\<close> form: two records that differ in letter case
  and blanks only, one with a blank body, one without a title, and a number.
\<close>

definition data_mixed :: "json list" where
  "data_mixed =
     [JObject [(''title'', JString ''SOP Writer''), (''category'', JString ''Ops''),
               (''prompt'', JString ''  Turn a process into an SOP. ''), (''rating'', JNumber 4)],
      JObject [(''title'', JString ''sop writer''), (''prompt'', JString ''turn a process into an SOP.'')],
      JObject [(''title'', JString ''No body''), (''prompt'', JString ''   '')],
      JObject [(''prompt'', JString ''Draft a letter.''), (''tags'', JArray [JString ''a'', JNumber 7])],
      JNumber 3]"

definition input_mixed :: json where
  "input_mixed = JObject [(''items'', JArray data_mixed)]"


definition output_mixed :: "item list" where
  "output_mixed =
     [\<lparr>item_id = ''id-3'', category = ''General'', title = ''Untitled'', tags = [''a'', ''7''], rating = 5,
       price = 99, buyUrl = [], prompt = ''Draft a letter.''\<rparr>,
      \<lparr>item_id = ''id-0'', category = ''Ops'', title = ''SOP Writer'', tags = [], rating = 4,
       price = 99, buyUrl = [], prompt = ''Turn a process into an SOP.''\<rparr>]"




section \<open>License service: proofs\<close>

subsection \<open>Steps of the licenses table\<close>

lemma lic_step_refl: "lic_step tok rows rows"
  unfolding lic_step_def
  by (rule disjI1, rule exI[of _ "\<lambda>r. r"]) (simp add: same_but_billing_def)

lemma lic_step_map:
  "(\<And>r. same_but_billing r (g r)) \<Longrightarrow> lic_step tok rows (map (\<lambda>r. if P r then g r else r) rows)"
  unfolding lic_step_def
  by (rule disjI1, rule exI[of _ "\<lambda>r. if P r then g r else r"]) (simp add: same_but_billing_def)

lemma update_licenses_eq_step:
  "(\<And>r. same_but_billing r (g r)) \<Longrightarrow> lic_step tok rows (snd (update_licenses_eq f col v g rows))"
  by (cases f) (simp_all add: update_licenses_eq_def lic_step_refl lic_step_map)

lemma maybeSingle_None: "maybeSingle xs = Inr None \<Longrightarrow> xs = []"
  by (auto simp: maybeSingle_def split: list.splits)

lemma maybeSingle_Some: "maybeSingle xs = Inr (Some x) \<Longrightarrow> xs = [x]"
  by (auto simp: maybeSingle_def split: list.splits)

lemma select_None:
  "select_licenses_eq f col v rows = Inr None \<Longrightarrow> v \<notin> col ` set rows"
  by (cases f) (auto simp: select_licenses_eq_def filter_empty_conv dest!: maybeSingle_None)

lemma select_Some:
  "select_licenses_eq f col v rows = Inr (Some x) \<Longrightarrow> filter (\<lambda>r. col r = v) rows = [x]"
  by (cases f) (auto simp: select_licenses_eq_def dest!: maybeSingle_Some)

lemma createOrUpdateLicense_step:
  "lic_step tok rows (snd (createOrUpdateLicense f1 f2 tok cid sid st pe ses rows))"
proof (cases "select_licenses_eq f1 stripe_subscription_id sid rows")
  case (Inl a)
  then show ?thesis by (simp add: createOrUpdateLicense_def lic_step_refl)
next
  case (Inr found)
  show ?thesis
  proof (cases found)
    case None
    with Inr have "sid \<notin> stripe_subscription_id ` set rows" by (auto dest: select_None)
    with Inr None show ?thesis
      by (cases f2) (auto simp: createOrUpdateLicense_def lic_step_refl lic_step_def Let_def)
  next
    case (Some x)
    with Inr show ?thesis
      by (cases f2)
         (auto simp: createOrUpdateLicense_def update_licenses_eq_def lic_step_refl
               intro!: lic_step_map split: sum.splits simp: same_but_billing_def)
  qed
qed

lemma createOrUpdateLicense_stepD:
  "createOrUpdateLicense f1 f2 tok cid sid st pe ses rows = (res, rows') \<Longrightarrow> lic_step tok rows rows'"
  using createOrUpdateLicense_step[of tok rows f1 f2 cid sid st pe ses] by simp

lemma update_licenses_eq_stepD:
  "update_licenses_eq f col v g rows = (res, rows') \<Longrightarrow> (\<And>r. same_but_billing r (g r)) \<Longrightarrow>
   lic_step tok rows rows'"
  using update_licenses_eq_step[of g tok rows f col v] by simp

lemma on_checkout_completed_step:
  "lic_step (licenseToken e) (licenses w) (licenses (snd (on_checkout_completed cfg e s w)))"
  by (auto simp: on_checkout_completed_def lic_step_refl Let_def
           split: sum.splits prod.splits dest: createOrUpdateLicense_stepD)

lemma on_subscription_change_step:
  "lic_step tok (licenses w) (licenses (snd (on_subscription_change e sub w)))"
  by (auto simp: on_subscription_change_def lic_step_refl
           split: sum.splits prod.splits
           elim!: update_licenses_eq_stepD simp: same_but_billing_def)

lemma on_payment_failed_step:
  "lic_step tok (licenses w) (licenses (snd (on_payment_failed e failed w)))"
  by (auto simp: on_payment_failed_def lic_step_refl same_but_billing_def
           split: option.splits intro!: update_licenses_eq_step)

lemma handle_event_step:
  "lic_step (licenseToken e) (licenses w) (licenses (snd (handle_event cfg e ev w)))"
  by (cases ev)
     (simp_all add: on_checkout_completed_step on_subscription_change_step
        on_payment_failed_step lic_step_refl)

lemma webhook_step:
  "lic_step (licenseToken e) (licenses w) (licenses (snd (webhook cfg e req w)))"
proof (cases "constructEvent e (req_body req) (stripe_signature req) (STRIPE_WEBHOOK_SECRET cfg)")
  case (Inl msg)
  then show ?thesis by (simp add: webhook_def lic_step_refl)
next
  case (Inr ev)
  obtain res w' where h: "handle_event cfg e ev w = (res, w')" by (cases "handle_event cfg e ev w")
  with handle_event_step[of e w cfg ev] have "lic_step (licenseToken e) (licenses w) (licenses w')"
    by simp
  with Inr h show ?thesis by (cases res) (simp_all add: webhook_def)
qed

lemma lic_step_distinct:
  assumes "lic_step tok rows rows'" "distinct (map stripe_subscription_id rows)"
  shows "distinct (map stripe_subscription_id rows')"
proof -
  from assms(1) consider
    (upd) g where "\<forall>r. same_but_billing r (g r)" "rows' = map g rows"
  | (ins) d where "rows' = rows @ [d]" "stripe_subscription_id d \<notin> stripe_subscription_id ` set rows"
    unfolding lic_step_def by blast
  then show ?thesis
  proof cases
    case upd
    then have "map stripe_subscription_id rows' = map stripe_subscription_id rows"
      by (simp add: same_but_billing_def)
    with assms(2) show ?thesis by simp
  next
    case ins
    with assms(2) show ?thesis by simp
  qed
qed

lemma lic_step_frame:
  assumes "lic_step tok rows rows'"
  shows "list_all2 same_but_billing rows (take (length rows) rows')"
proof -
  from assms consider
    (upd) g where "\<forall>r. same_but_billing r (g r)" "rows' = map g rows"
  | (ins) d where "rows' = rows @ [d]"
    unfolding lic_step_def by blast
  then show ?thesis
  proof cases
    case upd
    then show ?thesis by (simp add: list_all2_conv_all_nth)
  next
    case ins
    then show ?thesis by (simp add: list_all2_conv_all_nth same_but_billing_def)
  qed
qed

lemma lic_step_new:
  assumes "lic_step tok rows rows'"
  shows "drop (length rows) rows' = [] \<or>
         (length rows' = Suc (length rows) \<and> token (last rows') = tok \<and>
          stripe_subscription_id (last rows') \<notin> stripe_subscription_id ` set rows)"
  using assms unfolding lic_step_def by auto

lemma createOrUpdateLicense_present:
  assumes "createOrUpdateLicense f1 f2 tok cid sid st pe ses rows = (Inr d, rows')"
  shows "sid \<in> stripe_subscription_id ` set rows'"
proof (cases "select_licenses_eq f1 stripe_subscription_id sid rows")
  case (Inl a)
  with assms show ?thesis by (simp add: createOrUpdateLicense_def)
next
  case (Inr found)
  show ?thesis
  proof (cases found)
    case None
    with Inr assms show ?thesis
      by (cases f2) (auto simp: createOrUpdateLicense_def Let_def)
  next
    case (Some x)
    with Inr have fx: "filter (\<lambda>r. stripe_subscription_id r = sid) rows = [x]"
      by (auto dest: select_Some)
    then have "x \<in> set (filter (\<lambda>r. stripe_subscription_id r = sid) rows)" by simp
    then have xin: "x \<in> set rows" "stripe_subscription_id x = sid" by auto
    from Inr Some assms have "map stripe_subscription_id rows' = map stripe_subscription_id rows"
      by (cases f2)
         (auto simp: createOrUpdateLicense_def update_licenses_eq_def split: sum.splits)
    then have "stripe_subscription_id ` set rows' = stripe_subscription_id ` set rows"
      by (metis set_map)
    with xin show ?thesis by auto
  qed
qed

lemma createOrUpdateLicense_existing:
  assumes fx: "filter (\<lambda>r. stripe_subscription_id r = sid) rows = [x]"
    and run: "createOrUpdateLicense f1 f2 tok cid sid st pe ses rows = (res, rows')"
  shows "case res of
           Inl _ \<Rightarrow> rows' = rows
         | Inr _ \<Rightarrow> rows' = map (\<lambda>r. if lic_id r = lic_id x
                          then r\<lparr>status := st, current_period_end := pe, session_id := ses\<rparr> else r) rows"
proof (cases f1)
  case (Some msg)
  with run show ?thesis by (auto simp: createOrUpdateLicense_def select_licenses_eq_def)
next
  case None
  with fx have sel: "select_licenses_eq f1 stripe_subscription_id sid rows = Inr (Some x)"
    by (simp add: select_licenses_eq_def maybeSingle_def)
  with run show ?thesis
    by (cases f2)
       (auto simp: createOrUpdateLicense_def update_licenses_eq_def split: sum.splits)
qed

lemma on_checkout_completed_present:
  assumes "on_checkout_completed cfg e s w = (Inr u, w')"
    and "sess_mode s = ''subscription''"
    and "subscriptions_retrieve e (sess_subscription s) = Inr sub"
  shows "sub_id sub \<in> stripe_subscription_id ` set (licenses w')"
  using assms
  by (auto simp: on_checkout_completed_def Let_def split: sum.splits prod.splits
           dest!: createOrUpdateLicense_present)

lemma filter_single_if_distinct:
  assumes "distinct (map f xs)" "v \<in> f ` set xs"
  shows "length (filter (\<lambda>r. f r = v) xs) = 1"
  using assms
proof (induction xs)
  case Nil
  then show ?case by simp
next
  case (Cons a xs)
  show ?case
  proof (cases "f a = v")
    case True
    with Cons.prems have "v \<notin> f ` set xs" by auto
    then have "filter (\<lambda>r. f r = v) xs = []" by (auto simp: filter_empty_conv)
    with True show ?thesis by simp
  next
    case False
    with Cons show ?thesis by auto
  qed
qed

lemma webhook_sub_unique: "sub_unique w \<Longrightarrow> sub_unique (snd (webhook cfg e req w))"
  unfolding sub_unique_def using webhook_step lic_step_distinct by blast

lemma webhook_checkout_ok:
  assumes "constructEvent e (req_body req) (stripe_signature req) (STRIPE_WEBHOOK_SECRET cfg)
             = Inr (Checkout_session_completed s)"
  shows "webhook cfg e req w =
           (case on_checkout_completed cfg e s w of
              (Inl _, w') \<Rightarrow> (Response 500 (Text_body ''Webhook failed''), w')
            | (Inr _, w') \<Rightarrow> (Response 200 Received_body, w'))"
  using assms by (simp add: webhook_def)

lemma on_checkout_completed_existing:
  assumes one: "filter (\<lambda>r. stripe_subscription_id r = sub_id sub) (licenses w) = [x]"
    and mode: "sess_mode s = ''subscription''"
    and sub: "subscriptions_retrieve e (sess_subscription s) = Inr sub"
    and run: "on_checkout_completed cfg e s w = (res, w')"
  shows "licenses w' = licenses w \<or>
         licenses w' = map (\<lambda>r. if lic_id r = lic_id x
                            then r\<lparr>status := sub_status sub,
                                   current_period_end := sub_current_period_end sub * 1000,
                                   session_id := sess_id s\<rparr> else r) (licenses w)"
    and "res = Inr u \<Longrightarrow>
         licenses w' = map (\<lambda>r. if lic_id r = lic_id x
                            then r\<lparr>status := sub_status sub,
                                   current_period_end := sub_current_period_end sub * 1000,
                                   session_id := sess_id s\<rparr> else r) (licenses w)"
proof -
  let ?upd = "map (\<lambda>r. if lic_id r = lic_id x
                            then r\<lparr>status := sub_status sub,
                                   current_period_end := sub_current_period_end sub * 1000,
                                   session_id := sess_id s\<rparr> else r) (licenses w)"
  have cases: "licenses w' = licenses w \<and> (\<exists>err. res = Inl err) \<or> licenses w' = ?upd"
  proof (cases "toISOString (sub_current_period_end sub * 1000)")
    case (Inl err)
    with mode sub run show ?thesis
      by (auto simp: on_checkout_completed_def Let_def split: sum.splits prod.splits)
  next
    case (Inr pe)
    then have pe: "pe = sub_current_period_end sub * 1000"
      by (auto simp: toISOString_def split: if_splits)
    from mode sub run Inr show ?thesis
      unfolding pe
      by (auto simp: on_checkout_completed_def Let_def split: sum.splits prod.splits
               dest!: createOrUpdateLicense_existing[OF one])
  qed
  from cases show "licenses w' = licenses w \<or> licenses w' = ?upd" by blast
  from cases show "res = Inr u \<Longrightarrow> licenses w' = ?upd" by auto
qed

subsection \<open>The claims on the webhook\<close>

text \<open>
  C3. Every webhook request keeps the invariant that no two license rows share a
  subscription reference. And when a completed subscription checkout has been processed
  with success, processing the same event again (whatever Stripe answers for the
  subscription by then, and whichever store calls fail) leaves exactly one license row
  for that subscription: no row is added, ids and tokens stay, and when the second run
  succeeds too, that row carries the status, period end and session of the second run.
\<close>

theorem checkout_replay_one_license:
  "sub_unique w \<Longrightarrow>
   sub_unique (snd (webhook cfg e req w)) \<and>
   (constructEvent e (req_body req) (stripe_signature req) (STRIPE_WEBHOOK_SECRET cfg)
        = Inr (Checkout_session_completed s) \<and>
    constructEvent e2 (req_body req) (stripe_signature req) (STRIPE_WEBHOOK_SECRET cfg)
        = Inr (Checkout_session_completed s) \<and>
    sess_mode s = ''subscription'' \<and>
    subscriptions_retrieve e (sess_subscription s) = Inr sub \<and>
    subscriptions_retrieve e2 (sess_subscription s) = Inr sub2 \<and>
    sub_id sub2 = sub_id sub \<and>
    fst (webhook cfg e req w) = Response 200 Received_body
    \<longrightarrow>
    (let w1 = snd (webhook cfg e req w);
         w2 = snd (webhook cfg e2 req w1)
     in length (licenses_for (sub_id sub) w1) = 1 \<and>
        length (licenses_for (sub_id sub) w2) = 1 \<and>
        length (licenses w2) = length (licenses w1) \<and>
        map lic_id (licenses w2) = map lic_id (licenses w1) \<and>
        map token (licenses w2) = map token (licenses w1) \<and>
        (fst (webhook cfg e2 req w1) = Response 200 Received_body \<longrightarrow>
           map status (licenses_for (sub_id sub) w2) = [sub_status sub2] \<and>
           map current_period_end (licenses_for (sub_id sub) w2) = [sub_current_period_end sub2 * 1000] \<and>
           map session_id (licenses_for (sub_id sub) w2) = [sess_id s])))"
proof (intro conjI impI)
  assume inv: "sub_unique w"
  then show "sub_unique (snd (webhook cfg e req w))" by (rule webhook_sub_unique)
next
  assume inv: "sub_unique w"
  assume h: "constructEvent e (req_body req) (stripe_signature req) (STRIPE_WEBHOOK_SECRET cfg)
        = Inr (Checkout_session_completed s) \<and>
    constructEvent e2 (req_body req) (stripe_signature req) (STRIPE_WEBHOOK_SECRET cfg)
        = Inr (Checkout_session_completed s) \<and>
    sess_mode s = ''subscription'' \<and>
    subscriptions_retrieve e (sess_subscription s) = Inr sub \<and>
    subscriptions_retrieve e2 (sess_subscription s) = Inr sub2 \<and>
    sub_id sub2 = sub_id sub \<and>
    fst (webhook cfg e req w) = Response 200 Received_body"
  define w1 where "w1 = snd (webhook cfg e req w)"
  define w2 where "w2 = snd (webhook cfg e2 req w1)"
  obtain r1 where r1: "on_checkout_completed cfg e s w = (r1, w1)"
    using h by (cases "on_checkout_completed cfg e s w")
      (auto simp: w1_def webhook_checkout_ok split: sum.splits)
  have ok1: "\<exists>u. r1 = Inr u"
    using h r1 by (cases r1) (auto simp: webhook_checkout_ok)
  then obtain u where u: "r1 = Inr u" by blast
  have present: "sub_id sub \<in> stripe_subscription_id ` set (licenses w1)"
    using on_checkout_completed_present[of cfg e s w u w1 sub] r1 u h by simp
  have inv1: "sub_unique w1" unfolding w1_def using inv by (rule webhook_sub_unique)
  have one1: "length (licenses_for (sub_id sub) w1) = 1"
    unfolding licenses_for_def
    using inv1 present by (intro filter_single_if_distinct) (simp_all add: sub_unique_def)
  then obtain x where x: "filter (\<lambda>r. stripe_subscription_id r = sub_id sub2) (licenses w1) = [x]"
    using h by (cases "licenses_for (sub_id sub) w1") (auto simp: licenses_for_def)
  obtain r2 where r2: "on_checkout_completed cfg e2 s w1 = (r2, w2)"
    using h by (cases "on_checkout_completed cfg e2 s w1")
      (auto simp: w2_def webhook_checkout_ok split: sum.splits)
  let ?upd = "map (\<lambda>r. if lic_id r = lic_id x
                            then r\<lparr>status := sub_status sub2,
                                   current_period_end := sub_current_period_end sub2 * 1000,
                                   session_id := sess_id s\<rparr> else r) (licenses w1)"
  have alt: "licenses w2 = licenses w1 \<or> licenses w2 = ?upd"
    using on_checkout_completed_existing(1)[OF x _ _ r2] h by simp
  have ids: "map lic_id ?upd = map lic_id (licenses w1)"
    and toks: "map token ?upd = map token (licenses w1)"
    and subs: "map stripe_subscription_id ?upd = map stripe_subscription_id (licenses w1)"
    by (simp_all add: comp_def if_distrib cong: if_cong)
  have subs2: "map stripe_subscription_id (licenses w2) = map stripe_subscription_id (licenses w1)"
    using alt subs by auto
  have inv2: "sub_unique w2" using inv1 subs2 by (simp add: sub_unique_def)
  have present2: "sub_id sub \<in> stripe_subscription_id ` set (licenses w2)"
    using present subs2 by (metis set_map)
  have one2: "length (licenses_for (sub_id sub) w2) = 1"
    unfolding licenses_for_def
    using inv2 present2 by (intro filter_single_if_distinct) (simp_all add: sub_unique_def)
  have len: "length (licenses w2) = length (licenses w1)"
    using subs2 by (metis length_map)
  have ids2: "map lic_id (licenses w2) = map lic_id (licenses w1)" using alt ids by auto
  have toks2: "map token (licenses w2) = map token (licenses w1)" using alt toks by auto
  have upd2: "map status (licenses_for (sub_id sub) w2) = [sub_status sub2] \<and>
           map current_period_end (licenses_for (sub_id sub) w2) = [sub_current_period_end sub2 * 1000] \<and>
           map session_id (licenses_for (sub_id sub) w2) = [sess_id s]"
    if ok2: "fst (webhook cfg e2 req w1) = Response 200 Received_body"
  proof -
    have "\<exists>u. r2 = Inr u" using h r2 ok2 by (cases r2) (auto simp: webhook_checkout_ok)
    then obtain u2 where "r2 = Inr u2" by blast
    then have l2: "licenses w2 = ?upd"
      using on_checkout_completed_existing(2)[OF x _ _ r2, of u2] h by simp
    have "filter (\<lambda>r. stripe_subscription_id r = sub_id sub2) ?upd
            = map (\<lambda>r. if lic_id r = lic_id x
                            then r\<lparr>status := sub_status sub2,
                                   current_period_end := sub_current_period_end sub2 * 1000,
                                   session_id := sess_id s\<rparr> else r)
                (filter (\<lambda>r. stripe_subscription_id r = sub_id sub2) (licenses w1))"
      by (simp add: filter_map comp_def if_distrib cong: if_cong)
    with x l2 h show ?thesis by (simp add: licenses_for_def)
  qed
  show "let w1 = snd (webhook cfg e req w);
         w2 = snd (webhook cfg e2 req w1)
     in length (licenses_for (sub_id sub) w1) = 1 \<and>
        length (licenses_for (sub_id sub) w2) = 1 \<and>
        length (licenses w2) = length (licenses w1) \<and>
        map lic_id (licenses w2) = map lic_id (licenses w1) \<and>
        map token (licenses w2) = map token (licenses w1) \<and>
        (fst (webhook cfg e2 req w1) = Response 200 Received_body \<longrightarrow>
           map status (licenses_for (sub_id sub) w2) = [sub_status sub2] \<and>
           map current_period_end (licenses_for (sub_id sub) w2) = [sub_current_period_end sub2 * 1000] \<and>
           map session_id (licenses_for (sub_id sub) w2) = [sess_id s])"
    unfolding Let_def w1_def[symmetric] w2_def[symmetric]
    using one1 one2 len ids2 toks2 upd2 by blast
qed

lemma run0: "webhook cfg0 env0 request0 world0 = (Response 200 Received_body, world1)"
  by code_simp

lemma run1: "webhook cfg0 env1 request0 world1 = (Response 200 Received_body, world1')"
  by code_simp

theorem checkout_replay_one_license_witness:
  "sub_unique world0 \<and>
   sub_unique (snd (webhook cfg0 env0 request0 world0)) \<and>
   licenses (snd (webhook cfg0 env0 request0 world0)) = [license0] \<and>
   licenses (snd (webhook cfg0 env1 request0 (snd (webhook cfg0 env0 request0 world0))))
     = [license0\<lparr>status := ''past_due''\<rparr>] \<and>
   length (licenses_for ''sub_1'' (snd (webhook cfg0 env1 request0 (snd (webhook cfg0 env0 request0 world0))))) = 1 \<and>
   map token (licenses (snd (webhook cfg0 env1 request0 (snd (webhook cfg0 env0 request0 world0)))))
     = [''0123456789AB-DEADBEEF'']"
proof -
  have h0: "sub_unique world0" by (simp add: sub_unique_def world0_def)
  have c0: "constructEvent env0 (req_body request0) (stripe_signature request0) (STRIPE_WEBHOOK_SECRET cfg0)
              = Inr (Checkout_session_completed session0)"
    by (simp add: env0_def request0_def)
  have c1: "constructEvent env1 (req_body request0) (stripe_signature request0) (STRIPE_WEBHOOK_SECRET cfg0)
              = Inr (Checkout_session_completed session0)"
    by (simp add: env1_def request0_def)
  have m: "sess_mode session0 = ''subscription''" by (simp add: session0_def)
  have s0: "subscriptions_retrieve env0 (sess_subscription session0) = Inr (subscription0 ''sub_1'')"
    by (simp add: env0_def session0_def)
  have s1: "subscriptions_retrieve env1 (sess_subscription session0)
              = Inr ((subscription0 ''sub_1'')\<lparr>sub_status := ''past_due''\<rparr>)"
    by (simp add: env1_def session0_def)
  have i: "sub_id ((subscription0 ''sub_1'')\<lparr>sub_status := ''past_due''\<rparr>) = sub_id (subscription0 ''sub_1'')"
    by simp
  have ok: "fst (webhook cfg0 env0 request0 world0) = Response 200 Received_body"
    by (simp add: run0)
  have sid: "sub_id (subscription0 ''sub_1'') = ''sub_1''" by (simp add: subscription0_def)
  have lw1: "licenses world1 = [license0]" by (simp add: world1_def)
  have tk: "token license0 = ''0123456789AB-DEADBEEF''" by (simp add: license0_def)
  have lw2: "licenses world1' = [license0\<lparr>status := ''past_due''\<rparr>]" by (simp add: world1'_def)
  have one: "length (licenses_for ''sub_1'' world1') = 1"
    by (simp add: licenses_for_def license0_def world1'_def)
  from checkout_replay_one_license[OF h0, of cfg0 env0 request0 session0 env1
         "subscription0 ''sub_1''" "(subscription0 ''sub_1'')\<lparr>sub_status := ''past_due''\<rparr>"]
       c0 c1 m s0 s1 i ok
  show ?thesis
    by (simp add: h0 sid run0 run1 lw1 lw2 tk one Let_def)
qed

text \<open>
  C4. Whatever event a webhook request carries, every license row that was there before
  is there after, at the same place, changed at most in \<open>status\<close>, \<open>current_period_end\<close>
  and \<open>session_id\<close>: its token (and id, customer, subscription reference and tier) is
  untouched. At most one row is appended, and only for a subscription reference that had
  no row; it carries the newly drawn token.
\<close>

theorem webhook_keeps_token:
  "(let rows = licenses w; rows' = licenses (snd (webhook cfg e req w))
    in list_all2 same_but_billing rows (take (length rows) rows') \<and>
       map token (take (length rows) rows') = map token rows \<and>
       (drop (length rows) rows' = [] \<or>
        length rows' = Suc (length rows) \<and> token (last rows') = licenseToken e \<and>
        stripe_subscription_id (last rows') \<notin> stripe_subscription_id ` set rows))"
proof -
  have st: "lic_step (licenseToken e) (licenses w) (licenses (snd (webhook cfg e req w)))"
    by (rule webhook_step)
  have fr: "list_all2 same_but_billing (licenses w)
              (take (length (licenses w)) (licenses (snd (webhook cfg e req w))))"
    using st by (rule lic_step_frame)
  then have "map token (take (length (licenses w)) (licenses (snd (webhook cfg e req w))))
               = map token (licenses w)"
    by (auto simp: list_all2_conv_all_nth same_but_billing_def intro!: nth_equalityI)
  with fr lic_step_new[OF st] show ?thesis by (simp add: Let_def)
qed

text \<open>
  C8. A webhook request whose signature check fails is answered with 400 and the
  check's message, and the world (both tables and the mails sent) is as before.
\<close>

theorem webhook_bad_signature_rejected:
  "constructEvent e (req_body req) (stripe_signature req) (STRIPE_WEBHOOK_SECRET cfg) = Inl msg \<Longrightarrow>
   webhook cfg e req w = (Response 400 (Text_body (''Webhook Error: '' @ msg)), w)"
  by (simp add: webhook_def)

theorem webhook_bad_signature_rejected_witness:
  "constructEvent env0 (req_body request_forged) (stripe_signature request_forged)
       (STRIPE_WEBHOOK_SECRET cfg0)
     = Inl ''No signatures found matching the expected signature for payload'' \<and>
   webhook cfg0 env0 request_forged world1
     = (Response 400 (Text_body
          ''Webhook Error: No signatures found matching the expected signature for payload''), world1)"
proof -
  have h: "constructEvent env0 (req_body request_forged) (stripe_signature request_forged)
       (STRIPE_WEBHOOK_SECRET cfg0)
     = Inl ''No signatures found matching the expected signature for payload''"
    by (simp add: env0_def request_forged_def)
  from webhook_bad_signature_rejected[OF h, of world1] h show ?thesis by simp
qed

subsection \<open>The claims on the verify endpoint\<close>

text \<open>
  C1. When the token of a verify request is the token of one license row, both
  implementations answer 200 with \<open>ok\<close> true exactly when the row's status is
  \<open>active\<close>, \<open>trialing\<close> or \<open>past_due\<close>, and false for every other status.
\<close>

theorem verify_entitled_iff_status:
  "required tok = Some t \<Longrightarrow>
   filter (\<lambda>r. token r = String_query t) (licenses w) = [l] \<Longrightarrow>
   verify None w tok =
     Response 200 (Verify_body (status l = ''active'' \<or> status l = ''trialing'' \<or> status l = ''past_due'')
                               (tier l) (current_period_end l)) \<and>
   verify_sidecar None w tok =
     Response 200 (Verify_body (status l = ''active'' \<or> status l = ''trialing'' \<or> status l = ''past_due'')
                               (tier l) (current_period_end l))"
  by (simp add: verify_def verify_sidecar_def select_licenses_eq_def maybeSingle_def)

theorem verify_entitled_iff_status_witness:
  "verify None world2 (Some (Q_string ''0123456789AB-DEADBEEF''))
     = Response 200 (Verify_body True ''all-access'' 1700000000000) \<and>
   verify_sidecar None world2 (Some (Q_string ''AAAAAAAAAAAA-BBBBBBBB''))
     = Response 200 (Verify_body False ''all-access'' 1700000000000)"
proof -
  have r1: "required (Some (Q_string ''0123456789AB-DEADBEEF'')) = Some (Q_string ''0123456789AB-DEADBEEF'')"
    and r2: "required (Some (Q_string ''AAAAAAAAAAAA-BBBBBBBB'')) = Some (Q_string ''AAAAAAAAAAAA-BBBBBBBB'')"
    by (simp_all add: required_def)
  have f1: "filter (\<lambda>r. token r = String_query (Q_string ''0123456789AB-DEADBEEF'')) (licenses world2)
              = [license0\<lparr>status := ''past_due''\<rparr>]"
    and f2: "filter (\<lambda>r. token r = String_query (Q_string ''AAAAAAAAAAAA-BBBBBBBB'')) (licenses world2)
              = [license_canceled]"
    by (simp_all add: world2_def license0_def license_canceled_def)
  from verify_entitled_iff_status[OF r1 f1] verify_entitled_iff_status[OF r2 f2]
  show ?thesis by (simp add: license0_def license_canceled_def)
qed



text \<open>
  C9. The verify endpoints of the two implementations give the same response to every
  request, in every state of the store and whatever the store call does.
\<close>

theorem verify_endpoints_equal:
  "verify fault w tok = verify_sidecar fault w tok"
  by (auto simp: verify_def verify_sidecar_def split: option.splits sum.splits)

section \<open>Catalog: proofs\<close>

subsection \<open>The sort is the stable sort by a key\<close>

lemma insert_sorted_insort_key:
  assumes "\<And>a b. (cmp a b \<le> 0) = (key a \<le> key b)"
  shows "insert_sorted cmp x xs = insort_key key x xs"
  by (induction xs) (simp_all add: assms)

lemma Array_sort_sort_key:
  assumes "\<And>a b. (cmp a b \<le> 0) = (key a \<le> key b)"
  shows "Array_sort cmp xs = sort_key key xs"
proof -
  have "insert_sorted cmp = insort_key key"
    by (intro ext) (rule insert_sorted_insort_key[OF assms])
  then show ?thesis by (simp add: Array_sort_def sort_key_def)
qed

lemma validator_compare_order:
  "(validator_compare ck a b \<le> 0) = (validator_order ck a \<le> validator_order ck b)"
  by (auto simp: validator_compare_def validator_order_def or_number_def localeCompare_def
        less_eq_prod_def)


lemma validator_sort: "Array_sort (validator_compare ck) xs = sort_key (validator_order ck) xs"
  by (rule Array_sort_sort_key) (rule validator_compare_order)



subsection \<open>The deduplication loop\<close>

lemma uniq_loop_subset: "set (uniq_loop f seen xs) \<subseteq> set xs"
  by (induction xs arbitrary: seen) (auto simp: Let_def)

lemma uniq_loop_keys: "f ` set (uniq_loop f seen xs) = f ` set xs - seen"
  by (induction xs arbitrary: seen) (auto simp: Let_def)

lemma uniq_loop_distinct: "distinct (map f (uniq_loop f seen xs))"
  by (induction xs arbitrary: seen) (auto simp: Let_def uniq_loop_keys)

lemma uniq_loop_id:
  "distinct (map f xs) \<Longrightarrow> f ` set xs \<inter> seen = {} \<Longrightarrow> uniq_loop f seen xs = xs"
  by (induction xs arbitrary: seen) (auto simp: Let_def)





subsection \<open>The builder\<close>


subsection \<open>The two deduplications\<close>




subsection \<open>The validator\<close>

lemma last_dropWhile: "dropWhile P xs \<noteq> [] \<Longrightarrow> last (dropWhile P xs) = last xs"
  by (metis last_appendR takeWhile_dropWhile_id)

lemma trim_idem: "trim (trim s) = trim s"
proof -
  define a where "a = dropWhile is_space s"
  define b where "b = dropWhile is_space (rev a)"
  have t: "trim s = rev b" by (simp add: trim_def a_def b_def)
  have front: "dropWhile is_space (rev b) = rev b"
  proof (cases "b = []")
    case True
    then show ?thesis by simp
  next
    case False
    then have nb: "dropWhile is_space (rev a) \<noteq> []" by (simp add: b_def)
    then have "rev a \<noteq> []" by auto
    then have na: "a \<noteq> []" by simp
    then have "\<not> is_space (hd a)" unfolding a_def by (rule hd_dropWhile)
    moreover have "last b = last (rev a)" unfolding b_def using nb by (rule last_dropWhile)
    moreover have "last (rev a) = hd a" using na by (simp add: last_rev)
    moreover have "hd (rev b) = last b" using False by (simp add: hd_rev)
    ultimately have "\<not> is_space (hd (rev b))" by simp
    moreover have "rev b \<noteq> []" using False by simp
    ultimately show ?thesis by (cases "rev b") auto
  qed
  have "trim (rev b) = rev (dropWhile is_space (rev (rev b)))"
    by (simp add: trim_def front)
  also have "\<dots> = rev b" by (simp add: b_def)
  finally show ?thesis by (simp add: t)
qed

lemma trim_Nil: "trim [] = []"
  by (simp add: trim_def)

lemma map_String_json_JString: "map (String_json ns \<circ> JString) ts = ts"
  by (induction ts) simp_all

lemma clean_to_json: "settled x \<Longrightarrow> clean ns (to_json x) i = Inr x"
  by (simp add: clean_def to_json_def or_json_def settled_def map_String_json_JString trim_Nil)

lemma clean_from_to_json:
  "\<forall>x \<in> set xs. settled x \<Longrightarrow> clean_from ns i (map to_json xs) = Inr xs"
proof (induction xs arbitrary: i)
  case Nil
  then show ?case by simp
next
  case (Cons x xs)
  then have "clean ns (to_json x) i = Inr x" by (simp add: clean_to_json)
  moreover from Cons have "clean_from ns (Suc i) (map to_json xs) = Inr xs" by simp
  ultimately show ?case by simp
qed

lemma clean_trimmed:
  "clean ns it i = Inr x \<Longrightarrow> trim (buyUrl x) = buyUrl x \<and> trim (prompt x) = prompt x"
proof -
  assume h: "clean ns it i = Inr x"
  have nn: "it \<noteq> JNull" using h by (cases "it = JNull") (simp_all add: clean_def)
  have "buyUrl (projr (clean ns it i)) = trim (String_json ns (or_json (property it ''buyUrl'') (JString [])))"
    and "prompt (projr (clean ns it i)) = trim (String_json ns (or_json (property it ''prompt'') (JString [])))"
    using nn by (simp_all add: clean_def)
  with h show ?thesis by (simp add: trim_idem)
qed

lemma clean_from_trimmed:
  "clean_from ns i its = Inr xs \<Longrightarrow> \<forall>x \<in> set xs. trim (buyUrl x) = buyUrl x \<and> trim (prompt x) = prompt x"
proof (induction its arbitrary: i xs)
  case Nil
  then show ?case by simp
next
  case (Cons it its)
  then show ?case
    by (auto split: sum.splits dest: clean_trimmed)
qed




lemma validator_main_eq:
  assumes "data_array p = Inr data" "clean_from ns 0 data = Inr cleaned"
  shows "validator_main ns ck (Some p) =
           Inr (sort_key (validator_order ck) (uniq_loop validator_key {} (kept cleaned)))"
  using assms by (simp add: validator_main_def validator_sort uniqBy_def kept_def)

lemma validator_main_InrD:
  assumes "validator_main ns ck parsed = Inr out"
  obtains p data cleaned where "parsed = Some p" "data_array p = Inr data"
    "clean_from ns 0 data = Inr cleaned"
    "out = sort_key (validator_order ck) (uniq_loop validator_key {} (kept cleaned))"
  using assms
  by (auto simp: validator_main_def validator_sort uniqBy_def kept_def
           split: option.splits sum.splits)

lemma validator_out_props:
  assumes "out = sort_key (validator_order ck) (uniq_loop validator_key {} (kept cleaned))"
  shows "set out \<subseteq> set (kept cleaned)"
    and "validator_key ` set out = validator_key ` set (kept cleaned)"
    and "distinct (map validator_key out)"
    and "sorted (map (validator_order ck) out)"
proof -
  let ?u = "uniq_loop validator_key {} (kept cleaned)"
  show "set out \<subseteq> set (kept cleaned)" using uniq_loop_subset[of validator_key "{}" "kept cleaned"]
    by (simp add: assms)
  show "validator_key ` set out = validator_key ` set (kept cleaned)"
    by (simp add: assms uniq_loop_keys)
  have "distinct (map validator_key ?u)" by (rule uniq_loop_distinct)
  then show "distinct (map validator_key out)" by (simp add: assms distinct_map)
  show "sorted (map (validator_order ck) out)" by (simp add: assms)
qed

lemma run_mixed: "validator_main integer_string code_points (Some input_mixed) = Inr output_mixed"
  by code_simp




text \<open>
  C10. As stated the claim fails: for an input whose \<open>id\<close> is the empty array the
  validator writes the empty string as id, and run on that output it writes \<open>id-0\<close>.
\<close>

theorem validator_not_idempotent_counterexample:
  "validator_main integer_string code_points (Some input_array_id) = Inr output_empty_id \<and>
   validator_main integer_string code_points (Some (JArray (map to_json output_empty_id)))
     = Inr [(hd output_empty_id)\<lparr>item_id := ''id-0''\<rparr>] \<and>
   validator_main integer_string code_points (Some (JArray (map to_json output_empty_id)))
     \<noteq> Inr output_empty_id"
  by code_simp

text \<open>
  C10, amended. When no record the validator writes has an empty id or an empty
  category, the validator run on what it has written writes the same list again.
\<close>

theorem validator_idempotent_on_settled:
  assumes run: "validator_main ns ck parsed = Inr out"
    and ids: "\<forall>x \<in> set out. item_id x \<noteq> [] \<and> category x \<noteq> []"
  shows "validator_main ns ck (Some (JArray (map to_json out))) = Inr out"
proof -
  from run obtain p data cleaned where
    cl: "clean_from ns 0 data = Inr cleaned"
    and out: "out = sort_key (validator_order ck) (uniq_loop validator_key {} (kept cleaned))"
    by (rule validator_main_InrD)
  note props = validator_out_props[OF out]
  have sub: "set out \<subseteq> set (kept cleaned)" by (rule props(1))
  have settled: "\<forall>x \<in> set out. settled x"
  proof
    fix x assume x: "x \<in> set out"
    with sub have k: "x \<in> set (kept cleaned)" by auto
    then have "x \<in> set cleaned" "title x \<noteq> []" by (auto simp: kept_def)
    with clean_from_trimmed[OF cl] ids x show "settled x" by (simp add: settled_def)
  qed
  have again: "clean_from ns 0 (map to_json out) = Inr out"
    using settled by (rule clean_from_to_json)
  have keep: "kept out = out" using sub by (auto simp: kept_def filter_id_conv)
  have uniq: "uniq_loop validator_key {} out = out"
    using props(3) by (intro uniq_loop_id) simp_all
  have sorted: "sort_key (validator_order ck) out = out"
    using props(4) by (rule sort_key_id_if_sorted)
  have "data_array (JArray (map to_json out)) = Inr (map to_json out)" by (simp add: data_array_def)
  from validator_main_eq[OF this again, of ck] show ?thesis by (simp add: keep uniq sorted)
qed

theorem validator_idempotent_on_settled_witness:
  "validator_main integer_string code_points (Some input_mixed) = Inr output_mixed \<and>
   validator_main integer_string code_points (Some (JArray (map to_json output_mixed))) = Inr output_mixed"
proof -
  have ids: "\<forall>x \<in> set output_mixed. item_id x \<noteq> [] \<and> category x \<noteq> []"
    by (simp add: output_mixed_def)
  from validator_idempotent_on_settled[OF run_mixed ids] run_mixed show ?thesis by simp
qed

end
